theory Spec2Isabelle
  imports Main "HOL-Library.Word"
begin

unbundle bit_operations_syntax

section \<open>The LZ4 plugin of Squash (plugins/lz4/squash-lz4.c)\<close>

text \<open>
  The plugin is a thin adapter between the Squash codec interface and the LZ4 library.
  The model fixes the LP64 data model of the platforms Squash is built on: \<open>size_t\<close> and
  \<open>long\<close> are 64 bits wide, \<open>int\<close> is 32 bits wide, and a conversion between integer
  types keeps the low bits (sign-extending a signed source).  A C string is the list of
  its characters before the terminating NUL.
\<close>

type_synonym byte = "8 word"
type_synonym size_t = "64 word"
type_synonym long = "64 word"
type_synonym cint = "32 word"

text \<open>The status codes of \<open>squash/status.h\<close> that this file returns.\<close>

datatype SquashStatus =
    SQUASH_OK
  | SQUASH_FAILED
  | SQUASH_UNABLE_TO_LOAD
  | SQUASH_BAD_PARAM
  | SQUASH_BAD_VALUE
  | SQUASH_BUFFER_FULL

text \<open>
  \<open>struct SquashLZ4Options_s\<close>: the host's \<open>SquashOptions\<close> base object, whose layout
  belongs to the host and is left as a type parameter, and the flag \<open>hc\<close>.
\<close>

record 'b SquashLZ4Options =
  base_object :: 'b
  hc :: bool

text \<open>
  How a call ends: it returns, or an \<open>assert\<close> aborts the process (builds without
  \<open>NDEBUG\<close>), or it dereferences a null pointer (undefined behaviour).
\<close>

datatype 'a outcome = Returns 'a | Assertion_failed | Undefined_behaviour

subsection \<open>The C library functions used by the option parser\<close>

definition isspace :: "char \<Rightarrow> bool" where
  "isspace c \<longleftrightarrow> (of_char c :: nat) = 32 \<or> (9 \<le> (of_char c :: nat) \<and> (of_char c :: nat) \<le> 13)"

definition tolower :: "char \<Rightarrow> char" where
  "tolower c = (if 65 \<le> (of_char c :: nat) \<and> (of_char c :: nat) \<le> 90
                then char_of ((of_char c :: nat) + 32) else c)"

text \<open>
  \<open>strcmp\<close> and \<open>strcasecmp\<close> compare as unsigned characters; the C standard fixes only
  the sign of the result, which is what the model returns.
\<close>

fun strcmp :: "string \<Rightarrow> string \<Rightarrow> int" where
  "strcmp [] [] = 0"
| "strcmp [] (b # bs) = -1"
| "strcmp (a # as) [] = 1"
| "strcmp (a # as) (b # bs) =
     (if a = b then strcmp as bs
      else if (of_char a :: nat) < of_char b then -1 else 1)"

definition strcasecmp :: "string \<Rightarrow> string \<Rightarrow> int" where
  "strcasecmp a b = strcmp (map tolower a) (map tolower b)"

text \<open>The value of a character as a digit in bases up to 36.\<close>

definition digit_val :: "char \<Rightarrow> nat option" where
  "digit_val c =
     (let n = (of_char c :: nat) in
      if 48 \<le> n \<and> n \<le> 57 then Some (n - 48)
      else if 97 \<le> n \<and> n \<le> 122 then Some (n - 87)
      else if 65 \<le> n \<and> n \<le> 90 then Some (n - 55)
      else None)"

text \<open>
  The digit loop of \<open>strtol\<close>: the value read so far, the number of digits consumed and
  the rest of the string.
\<close>

fun strtol_digits :: "nat \<Rightarrow> nat \<Rightarrow> nat \<Rightarrow> string \<Rightarrow> nat \<times> nat \<times> string" where
  "strtol_digits b acc k [] = (acc, k, [])"
| "strtol_digits b acc k (c # cs) =
     (case digit_val c of
        None \<Rightarrow> (acc, k, c # cs)
      | Some d \<Rightarrow> if d < b then strtol_digits b (acc * b + d) (Suc k) cs
                  else (acc, k, c # cs))"

definition has_hex_prefix :: "string \<Rightarrow> bool" where
  "has_hex_prefix s =
     (case s of
        c0 # c1 # c2 # _ \<Rightarrow>
          c0 = CHR ''0'' \<and> (c1 = CHR ''x'' \<or> c1 = CHR ''X'') \<and>
          (case digit_val c2 of None \<Rightarrow> False | Some d \<Rightarrow> d < 16)
      | _ \<Rightarrow> False)"

definition LONG_MAX :: int where "LONG_MAX = 2 ^ 63 - 1"
definition LONG_MIN :: int where "LONG_MIN = - (2 ^ 63)"

text \<open>
  \<open>strtol (nptr, &endptr, base)\<close> of ISO C: white space is skipped, then an optional sign,
  then for base 0 or 16 an optional \<open>0x\<close> prefix (taken only when a hexadecimal digit
  follows), base 0 choosing octal after a leading \<open>0\<close> and decimal otherwise.  Without a
  digit nothing is converted: the value is 0 and \<open>endptr\<close> is \<open>nptr\<close>.  A value outside
  \<open>long\<close> is clamped to \<open>LONG_MAX\<close> or \<open>LONG_MIN\<close>.  The result is the value and the
  string \<open>endptr\<close> points to.
\<close>

definition strtol :: "string \<Rightarrow> nat \<Rightarrow> long \<times> string" where
  "strtol nptr base =
     (let s1 = dropWhile isspace nptr;
          neg = (case s1 of c # _ \<Rightarrow> c = CHR ''-'' | [] \<Rightarrow> False);
          s2 = (case s1 of c # r \<Rightarrow> if c = CHR ''-'' \<or> c = CHR ''+'' then r else s1
                | [] \<Rightarrow> s1);
          hex = ((base = 0 \<or> base = 16) \<and> has_hex_prefix s2);
          b = (if hex then 16
               else if base = 0 then (case s2 of c # _ \<Rightarrow> if c = CHR ''0'' then 8 else 10
                                      | [] \<Rightarrow> 10)
               else base);
          s3 = (if hex then drop 2 s2 else s2)
      in case strtol_digits b 0 0 s3 of
           (n, k, rest) \<Rightarrow>
             if k = 0 then (0, nptr)
             else (word_of_int (max LONG_MIN (min LONG_MAX (if neg then - int n else int n))),
                   rest))"

subsection \<open>Options\<close>

text \<open>
  \<open>squash_lz4_parse_option\<close>.  \<open>options\<close> is the pointer argument (\<open>None\<close> for \<open>NULL\<close>)
  with the object it points to; the object after the call is returned with the status.
  \<open>ndebug\<close> says whether the file was compiled with \<open>NDEBUG\<close>.
\<close>

definition squash_lz4_parse_option ::
  "bool \<Rightarrow> 'b SquashLZ4Options option \<Rightarrow> string \<Rightarrow> string \<Rightarrow>
   (SquashStatus \<times> 'b SquashLZ4Options option) outcome" where
  "squash_lz4_parse_option ndebug options key val =
     (if options = None \<and> \<not> ndebug then Assertion_failed
      else if strcasecmp key ''level'' = 0 then
        (case strtol val 0 of
           (l, endptr) \<Rightarrow>
             (let level = (ucast l :: cint) in
              if endptr = [] \<and> (level = 1 \<or> level = 9) then
                (case options of
                   None \<Rightarrow> Undefined_behaviour
                 | Some opts \<Rightarrow> Returns (SQUASH_OK, Some (opts\<lparr>hc := (level = 9)\<rparr>)))
              else Returns (SQUASH_BAD_VALUE, options)))
      else Returns (SQUASH_BAD_PARAM, options))"

text \<open>
  Function pointers of this file, as they are stored by the plugin: the destroy callback
  of an options object and the entries of the codec's function table.
\<close>

datatype plugin_fn =
    Ptr_squash_lz4_options_free
  | Ptr_squash_lz4_create_options
  | Ptr_squash_lz4_parse_option
  | Ptr_squash_lz4_get_max_compressed_size
  | Ptr_squash_lz4_decompress_buffer
  | Ptr_squash_lz4_compress_buffer
  | Ptr_squash_lz4_compress_buffer_unsafe

text \<open>
  Options objects live on the heap, a map from addresses to objects.  \<open>malloc\<close> is a
  parameter: from the heap it yields the address of the new block, or \<open>None\<close> for \<open>NULL\<close>
  when memory is exhausted.  The host's \<open>squash_options_init\<close> is a parameter as well: it
  fills the base object from the codec and the destroy callback.
\<close>

type_synonym addr = nat
type_synonym 'b heap = "addr \<rightharpoonup> 'b SquashLZ4Options"

definition squash_lz4_options_init ::
  "bool \<Rightarrow> ('c \<Rightarrow> plugin_fn \<Rightarrow> 'b) \<Rightarrow> 'b heap \<Rightarrow> addr option \<Rightarrow> 'c \<Rightarrow> plugin_fn \<Rightarrow>
   'b heap outcome" where
  "squash_lz4_options_init ndebug squash_options_init h options codec destroy_notify =
     (case options of
        None \<Rightarrow> if ndebug then Undefined_behaviour else Assertion_failed
      | Some p \<Rightarrow>
          Returns (h(p \<mapsto> \<lparr>base_object = squash_options_init codec destroy_notify,
                            hc = False\<rparr>)))"

definition squash_lz4_options_new ::
  "bool \<Rightarrow> ('c \<Rightarrow> plugin_fn \<Rightarrow> 'b) \<Rightarrow> ('b heap \<Rightarrow> addr option) \<Rightarrow> 'b heap \<Rightarrow> 'c \<Rightarrow>
   (addr option \<times> 'b heap) outcome" where
  "squash_lz4_options_new ndebug squash_options_init malloc h codec =
     (let options = malloc h in
      case squash_lz4_options_init ndebug squash_options_init h options codec
             Ptr_squash_lz4_options_free of
        Returns h' \<Rightarrow> Returns (options, h')
      | Assertion_failed \<Rightarrow> Assertion_failed
      | Undefined_behaviour \<Rightarrow> Undefined_behaviour)"

definition squash_lz4_create_options ::
  "bool \<Rightarrow> ('c \<Rightarrow> plugin_fn \<Rightarrow> 'b) \<Rightarrow> ('b heap \<Rightarrow> addr option) \<Rightarrow> 'b heap \<Rightarrow> 'c \<Rightarrow>
   (addr option \<times> 'b heap) outcome" where
  "squash_lz4_create_options ndebug squash_options_init malloc h codec =
     squash_lz4_options_new ndebug squash_options_init malloc h codec"

subsection \<open>The LZ4 library\<close>

text \<open>
  \<open>lz4.h\<close> and \<open>lz4hc.h\<close> are not part of this file; the adapter is modelled over any
  library.  A primitive takes the source buffer, the destination buffer and its integer
  arguments, and yields its return value and the destination buffer after the call.
  \<open>LZ4_COMPRESSBOUND\<close> is the macro, applied here to a \<open>size_t\<close>.
\<close>

record lz4_library =
  LZ4_COMPRESSBOUND :: "size_t \<Rightarrow> size_t"
  LZ4_compress :: "byte list \<Rightarrow> byte list \<Rightarrow> cint \<Rightarrow> cint \<times> byte list"
  LZ4_compressHC :: "byte list \<Rightarrow> byte list \<Rightarrow> cint \<Rightarrow> cint \<times> byte list"
  LZ4_compress_limitedOutput :: "byte list \<Rightarrow> byte list \<Rightarrow> cint \<Rightarrow> cint \<Rightarrow> cint \<times> byte list"
  LZ4_compressHC_limitedOutput :: "byte list \<Rightarrow> byte list \<Rightarrow> cint \<Rightarrow> cint \<Rightarrow> cint \<times> byte list"
  LZ4_decompress_safe :: "byte list \<Rightarrow> byte list \<Rightarrow> cint \<Rightarrow> cint \<Rightarrow> cint \<times> byte list"

datatype lz4_call =
    Call_LZ4_compress
  | Call_LZ4_compressHC
  | Call_LZ4_compress_limitedOutput
  | Call_LZ4_compressHC_limitedOutput
  | Call_LZ4_decompress_safe

subsection \<open>The codec functions\<close>

text \<open>
  What a buffer call can change: the output buffer, the length slot behind the
  \<open>size_t*\<close> argument (the capacity on entry), and the log of library calls made so far.
  The \<open>codec\<close> argument, which no buffer function reads, is left out, as is the
  \<open>options\<close> argument of the decompressor.
\<close>

record out_state =
  out_buffer :: "byte list"
  out_length :: size_t
  lz4_calls :: "lz4_call list"

definition squash_lz4_get_max_compressed_size :: "lz4_library \<Rightarrow> size_t \<Rightarrow> size_t" where
  "squash_lz4_get_max_compressed_size lib uncompressed_length =
     LZ4_COMPRESSBOUND lib uncompressed_length"

definition squash_lz4_decompress_buffer ::
  "lz4_library \<Rightarrow> out_state \<Rightarrow> byte list \<Rightarrow> size_t \<Rightarrow> SquashStatus \<times> out_state" where
  "squash_lz4_decompress_buffer lib st compressed compressed_length =
     (case LZ4_decompress_safe lib compressed (out_buffer st)
             (ucast compressed_length) (ucast (out_length st)) of
        (lz4_e, decompressed) \<Rightarrow>
          (let st1 = st\<lparr>out_buffer := decompressed,
                        lz4_calls := lz4_calls st @ [Call_LZ4_decompress_safe]\<rparr>
           in if sint lz4_e < 0 then (SQUASH_FAILED, st1)
              else (SQUASH_OK, st1\<lparr>out_length := scast lz4_e\<rparr>)))"

definition squash_lz4_compress_buffer ::
  "lz4_library \<Rightarrow> out_state \<Rightarrow> byte list \<Rightarrow> size_t \<Rightarrow> 'b SquashLZ4Options option \<Rightarrow>
   SquashStatus \<times> out_state" where
  "squash_lz4_compress_buffer lib st uncompressed uncompressed_length options =
     (let st1 =
        (if options = None \<or> \<not> hc (the options) then
           (case LZ4_compress_limitedOutput lib uncompressed (out_buffer st)
                   (ucast uncompressed_length) (ucast (out_length st)) of
              (r, compressed) \<Rightarrow>
                st\<lparr>out_buffer := compressed, out_length := scast r,
                   lz4_calls := lz4_calls st @ [Call_LZ4_compress_limitedOutput]\<rparr>)
         else
           (case LZ4_compressHC_limitedOutput lib uncompressed (out_buffer st)
                   (ucast uncompressed_length) (ucast (out_length st)) of
              (r, compressed) \<Rightarrow>
                st\<lparr>out_buffer := compressed, out_length := scast r,
                   lz4_calls := lz4_calls st @ [Call_LZ4_compressHC_limitedOutput]\<rparr>))
      in (if out_length st1 = 0 then SQUASH_BUFFER_FULL else SQUASH_OK, st1))"

definition squash_lz4_compress_buffer_unsafe ::
  "bool \<Rightarrow> lz4_library \<Rightarrow> out_state \<Rightarrow> byte list \<Rightarrow> size_t \<Rightarrow> 'b SquashLZ4Options option \<Rightarrow>
   (SquashStatus \<times> out_state) outcome" where
  "squash_lz4_compress_buffer_unsafe ndebug lib st uncompressed uncompressed_length options =
     (if \<not> ndebug \<and> \<not> (LZ4_COMPRESSBOUND lib uncompressed_length \<le> out_length st)
      then Assertion_failed
      else
        (let st1 =
           (if options = None \<or> \<not> hc (the options) then
              (case LZ4_compress lib uncompressed (out_buffer st)
                      (ucast uncompressed_length) of
                 (r, compressed) \<Rightarrow>
                   st\<lparr>out_buffer := compressed, out_length := scast r,
                      lz4_calls := lz4_calls st @ [Call_LZ4_compress]\<rparr>)
            else
              (case LZ4_compressHC lib uncompressed (out_buffer st)
                      (ucast uncompressed_length) of
                 (r, compressed) \<Rightarrow>
                   st\<lparr>out_buffer := compressed, out_length := scast r,
                      lz4_calls := lz4_calls st @ [Call_LZ4_compressHC]\<rparr>))
         in Returns (if out_length st1 = 0 then SQUASH_BUFFER_FULL else SQUASH_OK, st1)))"

subsection \<open>Registration\<close>

text \<open>
  The entries of \<open>SquashCodecFuncs\<close> that the plugin fills (\<open>None\<close> for a null pointer).
  The host's \<open>squash_codec_get_name\<close> is a parameter.
\<close>

record SquashCodecFuncs =
  create_options :: "plugin_fn option"
  parse_option :: "plugin_fn option"
  get_max_compressed_size :: "plugin_fn option"
  decompress_buffer :: "plugin_fn option"
  compress_buffer :: "plugin_fn option"
  compress_buffer_unsafe :: "plugin_fn option"

definition squash_plugin_init_codec ::
  "('c \<Rightarrow> string) \<Rightarrow> 'c \<Rightarrow> 'z SquashCodecFuncs_scheme \<Rightarrow>
   SquashStatus \<times> 'z SquashCodecFuncs_scheme" where
  "squash_plugin_init_codec squash_codec_get_name codec funcs =
     (let name = squash_codec_get_name codec in
      if strcmp ''lz4'' name = 0 then
        (SQUASH_OK,
         funcs\<lparr>create_options := Some Ptr_squash_lz4_create_options,
               parse_option := Some Ptr_squash_lz4_parse_option,
               get_max_compressed_size := Some Ptr_squash_lz4_get_max_compressed_size,
               decompress_buffer := Some Ptr_squash_lz4_decompress_buffer,
               compress_buffer := Some Ptr_squash_lz4_compress_buffer,
               compress_buffer_unsafe := Some Ptr_squash_lz4_compress_buffer_unsafe\<rparr>)
      else (SQUASH_UNABLE_TO_LOAD, funcs))"

subsection \<open>A reference library\<close>

text \<open>
  To run the adapter on concrete inputs the library parameter needs an instance.  The
  one defined here writes an LZ4 block that is a single run of literals: the token
  (literal length in the high nibble, 15 meaning that length bytes follow), the length
  bytes, the literals.  Its decompressor reads blocks of that shape and rejects any
  other input, and both compression levels produce the same block.  Like LZ4 it refuses
  inputs longer than \<open>LZ4_MAX_INPUT_SIZE\<close> and negative sizes.
\<close>

definition length_bytes :: "nat \<Rightarrow> byte list" where
  "length_bytes n = replicate (n div 255) 255 @ [of_nat (n mod 255)]"

definition literal_block :: "byte list \<Rightarrow> byte list" where
  "literal_block xs =
     (if length xs < 15 then push_bit 4 (of_nat (length xs)) # xs
      else 240 # length_bytes (length xs - 15) @ xs)"

fun read_length :: "nat \<Rightarrow> byte list \<Rightarrow> (nat \<times> byte list) option" where
  "read_length acc [] = None"
| "read_length acc (b # bs) =
     (if b = 255 then read_length (acc + 255) bs else Some (acc + unat b, bs))"

definition literal_unblock :: "byte list \<Rightarrow> byte list option" where
  "literal_unblock bs =
     (case bs of
        [] \<Rightarrow> None
      | token # rest \<Rightarrow>
          if token AND 15 \<noteq> 0 then None
          else if drop_bit 4 token = 15 then
            (case read_length 15 rest of
               None \<Rightarrow> None
             | Some (n, lits) \<Rightarrow> if length lits = n then Some lits else None)
          else if length rest = unat (drop_bit 4 token) then Some rest
          else None)"

definition LZ4_MAX_INPUT_SIZE :: int where
  "LZ4_MAX_INPUT_SIZE = 2113929216"

text \<open>Writing \<open>bs\<close> at the start of the buffer \<open>dest\<close>.\<close>

definition store :: "byte list \<Rightarrow> byte list \<Rightarrow> byte list" where
  "store bs dest = bs @ drop (length bs) dest"

definition literal_compress :: "byte list \<Rightarrow> byte list \<Rightarrow> cint \<Rightarrow> cint \<times> byte list" where
  "literal_compress src dest isize =
     (if sint isize < 0 \<or> LZ4_MAX_INPUT_SIZE < sint isize then (0, dest)
      else (let block = literal_block (take (nat (sint isize)) src)
            in (of_nat (length block), store block dest)))"

definition literal_compress_limitedOutput ::
  "byte list \<Rightarrow> byte list \<Rightarrow> cint \<Rightarrow> cint \<Rightarrow> cint \<times> byte list" where
  "literal_compress_limitedOutput src dest isize maxOutputSize =
     (if sint isize < 0 \<or> LZ4_MAX_INPUT_SIZE < sint isize then (0, dest)
      else (let block = literal_block (take (nat (sint isize)) src)
            in if sint maxOutputSize < int (length block) then (0, dest)
               else (of_nat (length block), store block dest)))"

definition literal_decompress_safe ::
  "byte list \<Rightarrow> byte list \<Rightarrow> cint \<Rightarrow> cint \<Rightarrow> cint \<times> byte list" where
  "literal_decompress_safe src dest isize maxOutputSize =
     (if sint isize < 0 then (- 1, dest)
      else (case literal_unblock (take (nat (sint isize)) src) of
              None \<Rightarrow> (- 1, dest)
            | Some lits \<Rightarrow>
                if sint maxOutputSize < int (length lits) then (- 1, dest)
                else (of_nat (length lits), store lits dest)))"

definition literal_lz4 :: lz4_library where
  "literal_lz4 =
     \<lparr>LZ4_COMPRESSBOUND = (\<lambda>isize. isize + isize div 255 + 16),
      LZ4_compress = literal_compress,
      LZ4_compressHC = literal_compress,
      LZ4_compress_limitedOutput = literal_compress_limitedOutput,
      LZ4_compressHC_limitedOutput = literal_compress_limitedOutput,
      LZ4_decompress_safe = literal_decompress_safe\<rparr>"

subsection \<open>What the round trip needs from the library\<close>

text \<open>
  The library's side of a round trip, for a bounded compressor \<open>compress\<close>: on a source
  of \<open>isize \<ge> 0\<close> bytes it never returns a negative count, and when it returns a
  positive count \<open>r\<close>, \<open>LZ4_decompress_safe\<close> run on its output with that count and any
  capacity of at least \<open>isize\<close> returns \<open>isize\<close> and has written the source bytes.
\<close>

definition inverts ::
  "lz4_library \<Rightarrow> (byte list \<Rightarrow> byte list \<Rightarrow> cint \<Rightarrow> cint \<Rightarrow> cint \<times> byte list) \<Rightarrow> bool" where
  "inverts lib compress \<longleftrightarrow>
     (\<forall>src dest isize maxOutputSize r compressed.
        0 \<le> sint isize \<and> nat (sint isize) \<le> length src \<and>
        compress src dest isize maxOutputSize = (r, compressed) \<longrightarrow>
        0 \<le> sint r \<and>
        (\<forall>ddest cap k decompressed.
           0 < sint r \<and> sint isize \<le> sint cap \<and>
           LZ4_decompress_safe lib compressed ddest r cap = (k, decompressed) \<longrightarrow>
           k = isize \<and>
           take (nat (sint isize)) decompressed = take (nat (sint isize)) src))"

definition lz4_round_trip :: "lz4_library \<Rightarrow> bool" where
  "lz4_round_trip lib \<longleftrightarrow>
     inverts lib (LZ4_compress_limitedOutput lib) \<and>
     inverts lib (LZ4_compressHC_limitedOutput lib)"

text \<open>
  The specification's condition for the high-compression path: an options value is
  supplied and its flag is set.
\<close>

definition high_compression_selected :: "'b SquashLZ4Options option \<Rightarrow> bool" where
  "high_compression_selected options =
     (case options of None \<Rightarrow> False | Some opts \<Rightarrow> hc opts)"

text \<open>
  The call that the specification's rule selects, with the arguments the adapter passes
  (the lengths converted to \<open>int\<close>): its return value and the buffer it leaves.
\<close>

definition selected_limitedOutput ::
  "lz4_library \<Rightarrow> out_state \<Rightarrow> byte list \<Rightarrow> size_t \<Rightarrow> 'b SquashLZ4Options option \<Rightarrow>
   cint \<times> byte list" where
  "selected_limitedOutput lib st uncompressed n options =
     (if high_compression_selected options
      then LZ4_compressHC_limitedOutput lib uncompressed (out_buffer st) (ucast n)
             (ucast (out_length st))
      else LZ4_compress_limitedOutput lib uncompressed (out_buffer st) (ucast n)
             (ucast (out_length st)))"

definition selected_unbounded ::
  "lz4_library \<Rightarrow> out_state \<Rightarrow> byte list \<Rightarrow> size_t \<Rightarrow> 'b SquashLZ4Options option \<Rightarrow>
   cint \<times> byte list" where
  "selected_unbounded lib st uncompressed n options =
     (if high_compression_selected options
      then LZ4_compressHC lib uncompressed (out_buffer st) (ucast n)
      else LZ4_compress lib uncompressed (out_buffer st) (ucast n))"

section \<open>Properties\<close>

subsection \<open>String comparison and conversions between integer types\<close>

lemma strcmp_eq_0_iff: "strcmp a b = 0 \<longleftrightarrow> a = b"
  by (induction a b rule: strcmp.induct) auto

lemma strcasecmp_eq_0_iff: "strcasecmp a b = 0 \<longleftrightarrow> map tolower a = map tolower b"
  by (simp add: strcasecmp_def strcmp_eq_0_iff)

lemma uint_below_INT_MAX: "n \<le> 0x7FFFFFFF \<Longrightarrow> uint (n :: size_t) < 2 ^ 31"
  by (simp add: word_le_def)

text \<open>A \<open>size_t\<close> up to \<open>INT_MAX\<close> keeps its value when converted to \<open>int\<close>.\<close>

lemma sint_ucast_size: "n \<le> 0x7FFFFFFF \<Longrightarrow> sint (ucast (n :: size_t) :: cint) = uint n"
proof -
  assume "n \<le> 0x7FFFFFFF"
  then have "uint n < 2 ^ 31" by (rule uint_below_INT_MAX)
  moreover have "(0::int) \<le> 2 ^ 31" by simp
  then have "- (2 ^ 31) \<le> uint n" using uint_nonnegative [of n] by linarith
  ultimately have "signed_take_bit 31 (uint n) = uint n"
    by (rule signed_take_bit_int_eq_self [rotated])
  then show ?thesis by (simp add: signed_ucast_eq)
qed

lemma scast_ucast_size: "n \<le> 0x7FFFFFFF \<Longrightarrow> scast (ucast (n :: size_t) :: cint) = n"
  by (simp add: scast_eq sint_ucast_size)

text \<open>An \<open>int\<close> stored in a \<open>size_t\<close> and read back as \<open>int\<close> is unchanged.\<close>

lemma ucast_scast_int: "ucast (scast (r :: cint) :: size_t) = r"
  by (rule bit_word_eqI) (simp add: bit_simps)

lemma scast_int_eq_0_iff: "(scast (r :: cint) :: size_t) = 0 \<longleftrightarrow> r = 0"
  by (metis ucast_scast_int ucast_0 scast_0)

lemma sint_of_nat_int: "k < 2 ^ 31 \<Longrightarrow> sint (of_nat k :: cint) = int k"
  by (simp add: signed_of_nat signed_take_bit_int_eq_self)

text \<open>A non-negative \<open>int\<close> keeps its value when converted to \<open>size_t\<close>.\<close>

lemma unat_scast_int:
  "0 \<le> sint (r :: cint) \<Longrightarrow> unat (scast r :: size_t) = nat (sint r)"
proof -
  assume nn: "0 \<le> sint r"
  have up: "sint (scast r :: size_t) = sint r"
    by (rule sint_up_scast) (simp add: is_up)
  have "sint r < 2 ^ 31" using sint_lt [of r] by simp
  moreover have "(2::int) ^ 31 \<le> 2 ^ 64" by simp
  ultimately have lt: "sint r < 2 ^ 64" by linarith
  have "uint (scast r :: size_t) = take_bit 64 (sint (scast r :: size_t))"
    using uint_sint [of "scast r :: size_t"] by simp
  also have "\<dots> = take_bit 64 (sint r)" by (simp only: up)
  also have "\<dots> = sint r" using nn lt by (rule take_bit_int_eq_self)
  finally have "uint (scast r :: size_t) = sint r" .
  then have "nat (uint (scast r :: size_t)) = nat (sint r)" by (rule arg_cong)
  then show ?thesis by (simp only: unat_eq_nat_uint)
qed

text \<open>A \<open>long\<close> within the range of \<open>int\<close> survives the conversion to \<open>int\<close>.\<close>

lemma scast_ucast_long:
  assumes lo: "- (2 ^ 31) \<le> sint (l :: long)" and hi: "sint l < 2 ^ 31"
  shows "(scast (ucast l :: cint) :: long) = l"
proof -
  have "signed_take_bit 31 (uint l) = signed_take_bit 31 (sint l)"
    by (simp add: bit_eq_iff bit_simps)
  also have "\<dots> = sint l" using lo hi by (rule signed_take_bit_int_eq_self)
  finally have "sint (ucast l :: cint) = sint l" by (simp add: signed_ucast_eq)
  then show ?thesis by (simp add: scast_eq)
qed

lemma int_cast_exact:
  assumes "- (2 ^ 31) \<le> sint (l :: long)" and "sint l < 2 ^ 31"
  shows "(ucast l :: cint) = 1 \<longleftrightarrow> l = 1" and "(ucast l :: cint) = 9 \<longleftrightarrow> l = 9"
proof -
  have undo: "(scast (ucast l :: cint) :: long) = l" using assms by (rule scast_ucast_long)
  show "(ucast l :: cint) = 1 \<longleftrightarrow> l = 1"
  proof
    assume "(ucast l :: cint) = 1"
    then have "(scast (ucast l :: cint) :: long) = scast (1 :: cint)" by simp
    with undo show "l = 1" by simp
  qed simp
  show "(ucast l :: cint) = 9 \<longleftrightarrow> l = 9"
  proof
    assume "(ucast l :: cint) = 9"
    then have "(scast (ucast l :: cint) :: long) = scast (9 :: cint)" by simp
    with undo show "l = 9" by simp
  qed simp
qed

subsection \<open>Parsing options\<close>

lemmas parse_option_unfold =
  squash_lz4_parse_option_def strcasecmp_def tolower_def strtol_def isspace_def
  has_hex_prefix_def digit_val_def LONG_MAX_def LONG_MIN_def

text \<open>The examples of the specification's section 8, and the empty value.\<close>

lemma parse_option_examples:
  "squash_lz4_parse_option False (Some \<lparr>base_object = (), hc = False\<rparr>) ''level'' ''9''
     = Returns (SQUASH_OK, Some \<lparr>base_object = (), hc = True\<rparr>)"
  "squash_lz4_parse_option False (Some \<lparr>base_object = (), hc = True\<rparr>) ''LEVEL'' ''1''
     = Returns (SQUASH_OK, Some \<lparr>base_object = (), hc = False\<rparr>)"
  "squash_lz4_parse_option False (Some \<lparr>base_object = (), hc = False\<rparr>) ''level'' ''5''
     = Returns (SQUASH_BAD_VALUE, Some \<lparr>base_object = (), hc = False\<rparr>)"
  "squash_lz4_parse_option False (Some \<lparr>base_object = (), hc = False\<rparr>) ''level'' ''abc''
     = Returns (SQUASH_BAD_VALUE, Some \<lparr>base_object = (), hc = False\<rparr>)"
  "squash_lz4_parse_option False (Some \<lparr>base_object = (), hc = False\<rparr>) ''level'' ''1x''
     = Returns (SQUASH_BAD_VALUE, Some \<lparr>base_object = (), hc = False\<rparr>)"
  "squash_lz4_parse_option False (Some \<lparr>base_object = (), hc = False\<rparr>) ''level'' []
     = Returns (SQUASH_BAD_VALUE, Some \<lparr>base_object = (), hc = False\<rparr>)"
  "squash_lz4_parse_option False (Some \<lparr>base_object = (), hc = False\<rparr>) ''anything_else'' ''1''
     = Returns (SQUASH_BAD_PARAM, Some \<lparr>base_object = (), hc = False\<rparr>)"
  by code_simp+

text \<open>
  The parser on an options object, with the comparison of the key resolved: what
  decides the \<open>level\<close> branch is the result of \<open>strtol\<close> after its conversion to \<open>int\<close>.
\<close>

lemma parse_option_level:
  "squash_lz4_parse_option ndebug (Some opts) key val =
     (if map tolower key = ''level'' then
        (case strtol val 0 of
           (l, endptr) \<Rightarrow>
             if endptr = [] \<and> ((ucast l :: cint) = 1 \<or> (ucast l :: cint) = 9)
             then Returns (SQUASH_OK, Some (opts\<lparr>hc := ((ucast l :: cint) = 9)\<rparr>))
             else Returns (SQUASH_BAD_VALUE, Some opts))
      else Returns (SQUASH_BAD_PARAM, Some opts))"
proof -
  have "map tolower ''level'' = ''level''" by (simp add: tolower_def)
  then show ?thesis
    by (simp add: squash_lz4_parse_option_def strcasecmp_eq_0_iff Let_def split: prod.splits)
qed

text \<open>
  As long as \<open>strtol\<close> yields a value within the range of \<open>int\<close>, the key \<open>level\<close> is
  accepted exactly for the values 1 and 9 read to the end of the string.
\<close>

lemma parse_option_level_in_int_range:
  assumes "strtol val 0 = (l, endptr)" and "- (2 ^ 31) \<le> sint l" and "sint l < 2 ^ 31"
  shows "squash_lz4_parse_option ndebug (Some opts) ''level'' val =
     (if endptr = [] \<and> (l = 1 \<or> l = 9)
      then Returns (SQUASH_OK, Some (opts\<lparr>hc := (l = 9)\<rparr>))
      else Returns (SQUASH_BAD_VALUE, Some opts))"
  using assms(1) int_cast_exact [OF assms(2,3)]
  by (simp add: parse_option_level tolower_def)

text \<open>
  C2.  The parser is to accept the key \<open>level\<close> exactly when the value parses, to its
  end, as the integer 1 or 9.  The code compares the result of \<open>strtol\<close> after
  converting it from \<open>long\<close> to \<open>int\<close>: the value \<open>4294967297\<close>, one more than the
  32nd power of two, parses to its end as that number, is cut to 1 by the conversion
  and is accepted, clearing the flag.
\<close>

theorem parse_option_accepts_wrapped_level:
  "strtol ''4294967297'' 0 = (4294967297, []) \<and>
   squash_lz4_parse_option False (Some \<lparr>base_object = (), hc = True\<rparr>) ''level'' ''4294967297''
     = Returns (SQUASH_OK, Some \<lparr>base_object = (), hc = False\<rparr>)"
  by (simp add: parse_option_unfold)

text \<open>
  C10.  A call of the parser on an options object returns; when the status is not
  \<open>SQUASH_OK\<close> the object is as it was before the call, and when it is \<open>SQUASH_OK\<close>
  nothing but the flag \<open>hc\<close> has changed.
\<close>

theorem parse_option_failure_keeps_options:
  "\<exists>status options'.
     squash_lz4_parse_option ndebug (Some opts) key val = Returns (status, options') \<and>
     (status \<noteq> SQUASH_OK \<longrightarrow> options' = Some opts) \<and>
     (status = SQUASH_OK \<longrightarrow> (\<exists>h. options' = Some (opts\<lparr>hc := h\<rparr>)))"
  by (auto simp: squash_lz4_parse_option_def Let_def split: prod.splits)

theorem parse_option_failure_keeps_options_witness:
  "\<exists>status. squash_lz4_parse_option False (Some \<lparr>base_object = (), hc = True\<rparr>) ''level'' ''5''
      = Returns (status, Some \<lparr>base_object = (), hc = True\<rparr>) \<and> status \<noteq> SQUASH_OK"
proof -
  have bad: "squash_lz4_parse_option False (Some \<lparr>base_object = (), hc = True\<rparr>) ''level'' ''5''
      = Returns (SQUASH_BAD_VALUE, Some \<lparr>base_object = (), hc = True\<rparr>)"
    by (simp add: parse_option_unfold)
  from parse_option_failure_keeps_options
    [of False "\<lparr>base_object = (), hc = True\<rparr>" "''level''" "''5''"]
  obtain status options' where
    r: "squash_lz4_parse_option False (Some \<lparr>base_object = (), hc = True\<rparr>) ''level'' ''5''
          = Returns (status, options')"
    and keep: "status \<noteq> SQUASH_OK \<longrightarrow> options' = Some \<lparr>base_object = (), hc = True\<rparr>"
    by blast
  from r bad have "status \<noteq> SQUASH_OK" by simp
  with keep r show ?thesis by blast
qed

subsection \<open>Creating options\<close>

text \<open>When \<open>malloc\<close> yields a block, the new object has the flag cleared.\<close>

lemma create_options_fresh:
  "malloc h = Some p \<Longrightarrow>
   squash_lz4_create_options ndebug squash_options_init malloc h codec =
     Returns (Some p,
       h(p \<mapsto> \<lparr>base_object = squash_options_init codec Ptr_squash_lz4_options_free,
                 hc = False\<rparr>))"
  by (simp add: squash_lz4_create_options_def squash_lz4_options_new_def
      squash_lz4_options_init_def)

text \<open>
  C9.  When memory is exhausted the host is to be told of an allocation failure, which
  for this interface is a null result.  The code passes the result of \<open>malloc\<close> to
  \<open>squash_lz4_options_init\<close> unchecked: with \<open>malloc\<close> returning \<open>NULL\<close> the assertion
  there aborts the process, and in a build with \<open>NDEBUG\<close> the null pointer is written
  through.  In neither build does the call return.
\<close>

theorem create_options_malloc_null:
  "squash_lz4_create_options False (\<lambda>codec destroy_notify. ()) (\<lambda>h. None) Map.empty ()
     = Assertion_failed \<and>
   squash_lz4_create_options True (\<lambda>codec destroy_notify. ()) (\<lambda>h. None) Map.empty ()
     = Undefined_behaviour"
  by (simp add: squash_lz4_create_options_def squash_lz4_options_new_def
      squash_lz4_options_init_def)

subsection \<open>Registration\<close>

text \<open>
  C7.  Registration returns \<open>SQUASH_OK\<close> with the six function pointers installed when
  the codec's name is exactly \<open>lz4\<close>; for every other name it returns
  \<open>SQUASH_UNABLE_TO_LOAD\<close> and leaves the table as it was.
\<close>

theorem plugin_init_codec_name:
  "squash_plugin_init_codec squash_codec_get_name codec funcs =
     (if squash_codec_get_name codec = ''lz4'' then
        (SQUASH_OK,
         funcs\<lparr>create_options := Some Ptr_squash_lz4_create_options,
               parse_option := Some Ptr_squash_lz4_parse_option,
               get_max_compressed_size := Some Ptr_squash_lz4_get_max_compressed_size,
               decompress_buffer := Some Ptr_squash_lz4_decompress_buffer,
               compress_buffer := Some Ptr_squash_lz4_compress_buffer,
               compress_buffer_unsafe := Some Ptr_squash_lz4_compress_buffer_unsafe\<rparr>)
      else (SQUASH_UNABLE_TO_LOAD, funcs))"
  by (auto simp: squash_plugin_init_codec_def Let_def strcmp_eq_0_iff)

subsection \<open>Compression\<close>

lemmas compress_unfold =
  squash_lz4_compress_buffer_def squash_lz4_compress_buffer_unsafe_def
  selected_limitedOutput_def selected_unbounded_def high_compression_selected_def

lemmas literal_unfold =
  literal_lz4_def literal_compress_def literal_compress_limitedOutput_def
  literal_decompress_safe_def literal_block_def literal_unblock_def store_def
  LZ4_MAX_INPUT_SIZE_def length_bytes_def

text \<open>
  C3.  \<open>squash_lz4_compress_buffer\<close> makes one library call, to
  \<open>LZ4_compressHC_limitedOutput\<close> when options are supplied with the flag set and to
  \<open>LZ4_compress_limitedOutput\<close> otherwise, and the length and buffer it leaves are those
  of that call.  \<open>squash_lz4_compress_buffer_unsafe\<close>, when its assertion holds or is
  compiled out, does the same with \<open>LZ4_compressHC\<close> and \<open>LZ4_compress\<close>.
\<close>

theorem compress_selects_variant:
  "(case squash_lz4_compress_buffer lib st uncompressed n options of
      (status, st') \<Rightarrow>
        lz4_calls st' = lz4_calls st @
          [if high_compression_selected options then Call_LZ4_compressHC_limitedOutput
           else Call_LZ4_compress_limitedOutput] \<and>
        (out_length st', out_buffer st') =
          (case selected_limitedOutput lib st uncompressed n options of
             (r, compressed) \<Rightarrow> (scast r, compressed))) \<and>
   (ndebug \<or> LZ4_COMPRESSBOUND lib n \<le> out_length st \<longrightarrow>
      (\<exists>status st'.
         squash_lz4_compress_buffer_unsafe ndebug lib st uncompressed n options
           = Returns (status, st') \<and>
         lz4_calls st' = lz4_calls st @
           [if high_compression_selected options then Call_LZ4_compressHC
            else Call_LZ4_compress] \<and>
         (out_length st', out_buffer st') =
           (case selected_unbounded lib st uncompressed n options of
              (r, compressed) \<Rightarrow> (scast r, compressed))))"
  by (cases options) (auto simp: compress_unfold Let_def split: prod.splits)

theorem compress_selects_variant_witness:
  "squash_lz4_compress_buffer literal_lz4
      \<lparr>out_buffer = [0, 0, 0, 0], out_length = 4, lz4_calls = []\<rparr> [7, 8] 2
      (Some \<lparr>base_object = (), hc = True\<rparr>)
     = (SQUASH_OK, \<lparr>out_buffer = [32, 7, 8, 0], out_length = 3,
                     lz4_calls = [Call_LZ4_compressHC_limitedOutput]\<rparr>) \<and>
   (\<exists>status st'.
      squash_lz4_compress_buffer_unsafe False literal_lz4
        \<lparr>out_buffer = replicate 18 0, out_length = 18, lz4_calls = []\<rparr> [7, 8] 2
        (Some \<lparr>base_object = (), hc = True\<rparr>) = Returns (status, st') \<and>
      lz4_calls st' = [Call_LZ4_compressHC])"
proof -
  have pre: "False \<or> LZ4_COMPRESSBOUND literal_lz4 2 \<le> out_length
      \<lparr>out_buffer = replicate 18 0, out_length = 18, lz4_calls = []\<rparr>"
    by (simp add: literal_lz4_def)
  have sel: "high_compression_selected (Some \<lparr>base_object = (), hc = True\<rparr>)"
    by (simp add: high_compression_selected_def)
  have first: "squash_lz4_compress_buffer literal_lz4
      \<lparr>out_buffer = [0, 0, 0, 0], out_length = 4, lz4_calls = []\<rparr> [7, 8] 2
      (Some \<lparr>base_object = (), hc = True\<rparr>)
     = (SQUASH_OK, \<lparr>out_buffer = [32, 7, 8, 0], out_length = 3,
                     lz4_calls = [Call_LZ4_compressHC_limitedOutput]\<rparr>)"
    by (simp add: squash_lz4_compress_buffer_def literal_unfold)
  from compress_selects_variant [where lib = literal_lz4
      and st = "\<lparr>out_buffer = replicate 18 0, out_length = 18, lz4_calls = []\<rparr>"
      and uncompressed = "[7, 8]" and n = 2
      and options = "Some \<lparr>base_object = (), hc = True\<rparr>" and ndebug = False] pre sel
  have "\<exists>status st'.
      squash_lz4_compress_buffer_unsafe False literal_lz4
        \<lparr>out_buffer = replicate 18 0, out_length = 18, lz4_calls = []\<rparr> [7, 8] 2
        (Some \<lparr>base_object = (), hc = True\<rparr>) = Returns (status, st') \<and>
      lz4_calls st' = [Call_LZ4_compressHC]"
    by auto
  with first show ?thesis by blast
qed

text \<open>
  C5.  With \<open>r\<close> the return value of the selected library call: both compress
  functions return \<open>SQUASH_BUFFER_FULL\<close> exactly when \<open>r\<close> is zero and \<open>SQUASH_OK\<close>
  exactly when it is not, so no other status occurs; the length slot then holds \<open>r\<close>
  converted to \<open>size_t\<close>, which is the count itself for every count that is not
  negative.  For the unchecked function this is the case whenever its assertion holds
  or is compiled out.
\<close>

theorem compress_status:
  "(case squash_lz4_compress_buffer lib st uncompressed n options of
      (status, st') \<Rightarrow>
        (case selected_limitedOutput lib st uncompressed n options of
           (r, compressed) \<Rightarrow>
             (status = SQUASH_BUFFER_FULL \<longleftrightarrow> r = 0) \<and>
             (status = SQUASH_OK \<longleftrightarrow> r \<noteq> 0) \<and>
             out_length st' = scast r \<and>
             (0 \<le> sint r \<longrightarrow> unat (out_length st') = nat (sint r)))) \<and>
   (ndebug \<or> LZ4_COMPRESSBOUND lib n \<le> out_length st \<longrightarrow>
      (\<exists>status st'.
         squash_lz4_compress_buffer_unsafe ndebug lib st uncompressed n options
           = Returns (status, st') \<and>
         (case selected_unbounded lib st uncompressed n options of
            (r, compressed) \<Rightarrow>
              (status = SQUASH_BUFFER_FULL \<longleftrightarrow> r = 0) \<and>
              (status = SQUASH_OK \<longleftrightarrow> r \<noteq> 0) \<and>
              out_length st' = scast r \<and>
              (0 \<le> sint r \<longrightarrow> unat (out_length st') = nat (sint r)))))"
  by (cases options)
    (auto simp: compress_unfold Let_def scast_int_eq_0_iff unat_scast_int split: prod.splits)

theorem compress_status_witness:
  "fst (squash_lz4_compress_buffer literal_lz4
          \<lparr>out_buffer = [0], out_length = 1, lz4_calls = []\<rparr> [7, 8] 2
          (None :: unit SquashLZ4Options option)) = SQUASH_BUFFER_FULL \<and>
   (\<exists>st'. squash_lz4_compress_buffer_unsafe False literal_lz4
            \<lparr>out_buffer = replicate 18 0, out_length = 18, lz4_calls = []\<rparr> [7, 8] 2
            (None :: unit SquashLZ4Options option) = Returns (SQUASH_OK, st') \<and>
          unat (out_length st') = 3)"
proof -
  have pre: "False \<or> LZ4_COMPRESSBOUND literal_lz4 2 \<le> out_length
      \<lparr>out_buffer = replicate 18 0, out_length = 18, lz4_calls = []\<rparr>"
    by (simp add: literal_lz4_def)
  have full: "selected_limitedOutput literal_lz4
      \<lparr>out_buffer = [0], out_length = 1, lz4_calls = []\<rparr> [7, 8] 2
      (None :: unit SquashLZ4Options option) = (0, [0])"
    by (simp add: selected_limitedOutput_def high_compression_selected_def literal_unfold)
  have fits: "selected_unbounded literal_lz4
      \<lparr>out_buffer = replicate 18 0, out_length = 18, lz4_calls = []\<rparr> [7, 8] 2
      (None :: unit SquashLZ4Options option) = (3, [32, 7, 8] @ replicate 15 0)"
    by (simp add: selected_unbounded_def high_compression_selected_def literal_unfold)
  from compress_status [where lib = literal_lz4
      and st = "\<lparr>out_buffer = [0], out_length = 1, lz4_calls = []\<rparr>"
      and uncompressed = "[7, 8]" and n = 2
      and options = "None :: unit SquashLZ4Options option" and ndebug = True] full
  have first: "fst (squash_lz4_compress_buffer literal_lz4
          \<lparr>out_buffer = [0], out_length = 1, lz4_calls = []\<rparr> [7, 8] 2
          (None :: unit SquashLZ4Options option)) = SQUASH_BUFFER_FULL"
    by (auto split: prod.splits)
  from compress_status [where lib = literal_lz4
      and st = "\<lparr>out_buffer = replicate 18 0, out_length = 18, lz4_calls = []\<rparr>"
      and uncompressed = "[7, 8]" and n = 2
      and options = "None :: unit SquashLZ4Options option" and ndebug = False] pre fits
  have "\<exists>st'. squash_lz4_compress_buffer_unsafe False literal_lz4
            \<lparr>out_buffer = replicate 18 0, out_length = 18, lz4_calls = []\<rparr> [7, 8] 2
            (None :: unit SquashLZ4Options option) = Returns (SQUASH_OK, st') \<and>
          unat (out_length st') = 3"
    by (auto split: prod.splits)
  with first show ?thesis by blast
qed

text \<open>
  A capacity of exactly \<open>squash_lz4_get_max_compressed_size\<close> of the input length
  passes the assertion of the unchecked function.
\<close>

lemma compress_unsafe_assertion_holds:
  "out_length st = squash_lz4_get_max_compressed_size lib n \<Longrightarrow>
   squash_lz4_compress_buffer_unsafe ndebug lib st uncompressed n options \<noteq> Assertion_failed"
  by (simp add: squash_lz4_compress_buffer_unsafe_def squash_lz4_get_max_compressed_size_def
      Let_def)

text \<open>
  In a build with assertions, a smaller capacity aborts the unchecked function before
  any library call.
\<close>

lemma compress_unsafe_assertion_fails:
  "\<not> LZ4_COMPRESSBOUND lib n \<le> out_length st \<Longrightarrow>
   squash_lz4_compress_buffer_unsafe False lib st uncompressed n options = Assertion_failed"
  by (simp add: squash_lz4_compress_buffer_unsafe_def)

subsection \<open>Decompression\<close>

text \<open>
  C6.  With \<open>lz4_e\<close> the return value of \<open>LZ4_decompress_safe\<close> on the compressed
  input and the capacity: when it is negative, which is how the library reports a
  malformed or truncated stream or one that does not fit the capacity,
  \<open>squash_lz4_decompress_buffer\<close> returns \<open>SQUASH_FAILED\<close> and leaves the length slot
  as it was; otherwise it returns \<open>SQUASH_OK\<close> with the slot holding \<open>lz4_e\<close>, the
  decompressed length.
\<close>

theorem decompress_status:
  "(case LZ4_decompress_safe lib compressed (out_buffer st) (ucast compressed_length)
           (ucast (out_length st)) of
      (lz4_e, decompressed) \<Rightarrow>
        (sint lz4_e < 0 \<longrightarrow>
           squash_lz4_decompress_buffer lib st compressed compressed_length =
             (SQUASH_FAILED,
              st\<lparr>out_buffer := decompressed,
                 lz4_calls := lz4_calls st @ [Call_LZ4_decompress_safe]\<rparr>)) \<and>
        (0 \<le> sint lz4_e \<longrightarrow>
           squash_lz4_decompress_buffer lib st compressed compressed_length =
             (SQUASH_OK,
              st\<lparr>out_buffer := decompressed, out_length := scast lz4_e,
                 lz4_calls := lz4_calls st @ [Call_LZ4_decompress_safe]\<rparr>) \<and>
           unat (scast lz4_e :: size_t) = nat (sint lz4_e)))"
  by (auto simp: squash_lz4_decompress_buffer_def Let_def unat_scast_int split: prod.splits)

theorem decompress_status_witness:
  "squash_lz4_decompress_buffer literal_lz4
      \<lparr>out_buffer = [0, 0], out_length = 2, lz4_calls = []\<rparr> [48, 7, 8, 9] 4
     = (SQUASH_FAILED,
        \<lparr>out_buffer = [0, 0], out_length = 2, lz4_calls = [Call_LZ4_decompress_safe]\<rparr>) \<and>
   squash_lz4_decompress_buffer literal_lz4
      \<lparr>out_buffer = [0, 0, 0, 0], out_length = 4, lz4_calls = []\<rparr> [48, 7, 8, 9] 4
     = (SQUASH_OK,
        \<lparr>out_buffer = [7, 8, 9, 0], out_length = 3, lz4_calls = [Call_LZ4_decompress_safe]\<rparr>)"
proof -
  have small: "LZ4_decompress_safe literal_lz4 [48, 7, 8, 9] [0, 0] 4 2 = (- 1, [0, 0])"
    by (simp add: literal_unfold)
  have large: "LZ4_decompress_safe literal_lz4 [48, 7, 8, 9] [0, 0, 0, 0] 4 4
      = (3, [7, 8, 9, 0])"
    by (simp add: literal_unfold)
  from decompress_status [where lib = literal_lz4
      and st = "\<lparr>out_buffer = [0, 0], out_length = 2, lz4_calls = []\<rparr>"
      and compressed = "[48, 7, 8, 9]" and compressed_length = 4] small
  have first: "squash_lz4_decompress_buffer literal_lz4
      \<lparr>out_buffer = [0, 0], out_length = 2, lz4_calls = []\<rparr> [48, 7, 8, 9] 4
     = (SQUASH_FAILED,
        \<lparr>out_buffer = [0, 0], out_length = 2, lz4_calls = [Call_LZ4_decompress_safe]\<rparr>)"
    by simp
  from decompress_status [where lib = literal_lz4
      and st = "\<lparr>out_buffer = [0, 0, 0, 0], out_length = 4, lz4_calls = []\<rparr>"
      and compressed = "[48, 7, 8, 9]" and compressed_length = 4] large
  have "squash_lz4_decompress_buffer literal_lz4
      \<lparr>out_buffer = [0, 0, 0, 0], out_length = 4, lz4_calls = []\<rparr> [48, 7, 8, 9] 4
     = (SQUASH_OK,
        \<lparr>out_buffer = [7, 8, 9, 0], out_length = 3, lz4_calls = [Call_LZ4_decompress_safe]\<rparr>)"
    by simp
  with first show ?thesis by blast
qed

subsection \<open>The reference library inverts its compressor\<close>

lemma read_length_replicate:
  "read_length acc (replicate k 255 @ xs) = read_length (acc + 255 * k) xs"
  by (induction k arbitrary: acc) (simp_all add: algebra_simps)

lemma read_length_last:
  "m < 255 \<Longrightarrow> read_length acc ((of_nat m :: byte) # rest) = Some (acc + m, rest)"
proof -
  assume m: "m < 255"
  then have u: "unat (of_nat m :: byte) = m" by (simp add: unat_of_nat)
  then have "(of_nat m :: byte) \<noteq> 255" using m by auto
  with u show ?thesis by simp
qed

lemma read_length_length_bytes:
  "read_length acc (length_bytes n @ rest) = Some (acc + n, rest)"
proof -
  have "read_length acc (length_bytes n @ rest)
      = read_length (acc + 255 * (n div 255)) ((of_nat (n mod 255) :: byte) # rest)"
    by (simp add: length_bytes_def read_length_replicate del: read_length.simps)
  also have "\<dots> = Some (acc + 255 * (n div 255) + n mod 255, rest)"
    by (rule read_length_last) simp
  also have "acc + 255 * (n div 255) + n mod 255 = acc + n"
    by simp
  finally show ?thesis .
qed

lemma token_low_nibble: "(push_bit 4 (w :: byte)) AND 15 = 0"
proof -
  have "(15 :: byte) = mask 4" by (simp add: mask_eq_exp_minus_1)
  then show ?thesis by (simp add: bit_eq_iff bit_simps)
qed

lemma token_high_nibble:
  "n < 16 \<Longrightarrow> drop_bit 4 (push_bit 4 (of_nat n :: byte)) = of_nat n"
proof -
  assume "n < 16"
  then have "take_bit 4 n = n" by (simp add: take_bit_nat_eq_self)
  then have "take_bit 4 (of_nat n :: byte) = of_nat n"
    by (metis of_nat_take_bit)
  moreover have "drop_bit 4 (push_bit 4 (of_nat n :: byte)) = take_bit 4 (of_nat n :: byte)"
    by (simp add: bit_eq_iff bit_simps)
  ultimately show ?thesis by simp
qed

lemma short_length_byte:
  "n < 15 \<Longrightarrow> (of_nat n :: byte) \<noteq> 15 \<and> unat (of_nat n :: byte) = n"
proof -
  assume n: "n < 15"
  then have u: "unat (of_nat n :: byte) = n" by (simp add: unat_of_nat)
  then have "(of_nat n :: byte) \<noteq> 15" using n by auto
  with u show ?thesis by simp
qed

lemma literal_unblock_block: "literal_unblock (literal_block xs) = Some xs"
proof (cases "length xs < 15")
  case True
  then have "length xs < 16" by simp
  with True show ?thesis
    by (simp add: literal_unblock_def literal_block_def token_low_nibble
        token_high_nibble short_length_byte)
next
  case False
  then show ?thesis
    by (simp add: literal_unblock_def literal_block_def read_length_length_bytes)
qed

lemma length_literal_block:
  "0 < length (literal_block xs) \<and>
   length (literal_block xs) \<le> length xs + length xs div 255 + 2"
  by (simp add: literal_block_def length_bytes_def div_le_mono) 

lemma take_store: "take (length bs) (store bs dest) = bs"
  by (simp add: store_def)


lemma of_nat_nat_sint: "0 \<le> sint (k :: cint) \<Longrightarrow> (of_nat (nat (sint k)) :: cint) = k"
  by (simp add: of_nat_nat)

lemma literal_block_fits:
  assumes "length xs \<le> 2113929216"
  shows "length (literal_block xs) < 2 ^ 31"
proof -
  from assms have "length xs div 255 \<le> 2113929216 div 255" by (rule div_le_mono)
  then have "length xs div 255 \<le> 8289918" by simp
  with assms length_literal_block [of xs] have "length (literal_block xs) \<le> 2122219136"
    by linarith
  then show ?thesis by simp
qed

lemma literal_decompress_block:
  assumes nn: "0 \<le> sint isize" and len: "nat (sint isize) \<le> length src"
    and small: "sint isize \<le> LZ4_MAX_INPUT_SIZE"
    and cap: "sint isize \<le> sint cap"
  shows "literal_decompress_safe
           (store (literal_block (take (nat (sint isize)) src)) dest) ddest
           (of_nat (length (literal_block (take (nat (sint isize)) src)))) cap
         = (isize, store (take (nat (sint isize)) src) ddest)"
proof -
  let ?B = "take (nat (sint isize)) src"
  let ?block = "literal_block ?B"
  have lenB: "length ?B = nat (sint isize)" using len by simp
  have "length ?B \<le> 2113929216" using small nn by (simp add: lenB LZ4_MAX_INPUT_SIZE_def)
  then have "length ?block < 2 ^ 31" by (rule literal_block_fits)
  then have r: "sint (of_nat (length ?block) :: cint) = int (length ?block)"
    by (rule sint_of_nat_int)
  have "take (nat (sint (of_nat (length ?block) :: cint))) (store ?block dest) = ?block"
    by (simp only: r nat_int take_store)
  moreover have "literal_unblock ?block = Some ?B" by (rule literal_unblock_block)
  moreover have "\<not> sint cap < int (length ?B)" using cap nn by (simp add: lenB)
  moreover have "(of_nat (length ?B) :: cint) = isize"
    using nn by (simp only: lenB of_nat_nat_sint)
  ultimately show ?thesis
    unfolding literal_decompress_safe_def using r by simp
qed

lemma literal_inverts: "inverts literal_lz4 literal_compress_limitedOutput"
  unfolding inverts_def
proof (intro allI impI)
  fix src dest :: "byte list" and isize maxOutputSize r :: cint and compressed :: "byte list"
  assume a: "0 \<le> sint isize \<and> nat (sint isize) \<le> length src \<and>
    literal_compress_limitedOutput src dest isize maxOutputSize = (r, compressed)"
  let ?B = "take (nat (sint isize)) src"
  let ?block = "literal_block ?B"
  show "0 \<le> sint r \<and>
    (\<forall>ddest cap k decompressed.
        0 < sint r \<and> sint isize \<le> sint cap \<and>
        LZ4_decompress_safe literal_lz4 compressed ddest r cap = (k, decompressed) \<longrightarrow>
        k = isize \<and> take (nat (sint isize)) decompressed = ?B)"
  proof (cases "LZ4_MAX_INPUT_SIZE < sint isize \<or> sint maxOutputSize < int (length ?block)")
    case True
    with a have "r = 0"
      by (auto simp: literal_compress_limitedOutput_def Let_def split: if_splits)
    then show ?thesis by simp
  next
    case False
    with a have r: "r = of_nat (length ?block)" and c: "compressed = store ?block dest"
      by (auto simp: literal_compress_limitedOutput_def Let_def split: if_splits)
    from a False have "length ?B \<le> 2113929216"
      by (auto simp: LZ4_MAX_INPUT_SIZE_def not_less)
    then have "length ?block < 2 ^ 31" by (rule literal_block_fits)
    then have "sint r = int (length ?block)" unfolding r by (rule sint_of_nat_int)
    then have pos: "0 \<le> sint r" by simp
    have "\<forall>ddest cap k decompressed.
        0 < sint r \<and> sint isize \<le> sint cap \<and>
        LZ4_decompress_safe literal_lz4 compressed ddest r cap = (k, decompressed) \<longrightarrow>
        k = isize \<and> take (nat (sint isize)) decompressed = ?B"
    proof (intro allI impI)
      fix ddest decompressed :: "byte list" and cap k :: cint
      assume d: "0 < sint r \<and> sint isize \<le> sint cap \<and>
        LZ4_decompress_safe literal_lz4 compressed ddest r cap = (k, decompressed)"
      with a False have "literal_decompress_safe compressed ddest r cap
          = (isize, store ?B ddest)"
        unfolding r c by (intro literal_decompress_block) simp_all
      moreover have "take (nat (sint isize)) (store ?B ddest) = ?B"
        using a take_store [of ?B ddest] by simp
      ultimately show "k = isize \<and> take (nat (sint isize)) decompressed = ?B"
        using d by (auto simp: literal_lz4_def)
    qed
    with pos show ?thesis by blast
  qed
qed

lemma literal_lz4_round_trip: "lz4_round_trip literal_lz4"
  using literal_inverts by (simp add: lz4_round_trip_def literal_lz4_def)

subsection \<open>Round trip\<close>

lemma compress_buffer_ok_result:
  assumes "squash_lz4_compress_buffer lib st B n options = (SQUASH_OK, st')"
  obtains r where
    "(if high_compression_selected options then LZ4_compressHC_limitedOutput lib
      else LZ4_compress_limitedOutput lib) B (out_buffer st) (ucast n) (ucast (out_length st))
       = (r, out_buffer st')"
    and "out_length st' = scast r" and "r \<noteq> 0"
  using assms
  by (cases options)
    (auto simp: squash_lz4_compress_buffer_def high_compression_selected_def Let_def
      scast_int_eq_0_iff split: prod.splits if_splits)

lemma invertsD:
  assumes "inverts lib compress" and "0 \<le> sint isize" and "nat (sint isize) \<le> length src"
    and "compress src dest isize maxOutputSize = (r, compressed)"
  shows "0 \<le> sint r"
    and "0 < sint r \<Longrightarrow> sint isize \<le> sint cap \<Longrightarrow>
         LZ4_decompress_safe lib compressed ddest r cap = (k, decompressed) \<Longrightarrow>
         k = isize \<and> take (nat (sint isize)) decompressed = take (nat (sint isize)) src"
  using assms unfolding inverts_def by blast+

text \<open>
  The capacity reaches \<open>LZ4_decompress_safe\<close> converted to \<open>int\<close>.  A capacity whose low
  32 bits are zero arrives as 0, and a library that never returns more than the
  capacity it was given can then deliver no byte at all, whatever the stream holds.
\<close>

lemma decompress_capacity_wraps:
  assumes safe: "\<And>src dest isize k decompressed.
      LZ4_decompress_safe lib src dest isize 0 = (k, decompressed) \<Longrightarrow> sint k \<le> 0"
    and wraps: "(ucast capacity :: cint) = 0"
    and ok: "squash_lz4_decompress_buffer lib
      \<lparr>out_buffer = dest, out_length = capacity, lz4_calls = calls\<rparr>
      compressed compressed_length = (SQUASH_OK, st')"
  shows "out_length st' = 0"
proof -
  obtain k decompressed where
    call: "LZ4_decompress_safe lib compressed dest (ucast compressed_length) 0
             = (k, decompressed)"
    by (cases "LZ4_decompress_safe lib compressed dest (ucast compressed_length) 0")
  then have "sint k \<le> 0" by (rule safe)
  with ok call have "sint k = 0" and "out_length st' = scast k"
    by (auto simp: squash_lz4_decompress_buffer_def wraps Let_def split: if_splits)
  then show ?thesis by (simp add: signed_eq_0_iff)
qed

lemma capacity_4GiB_wraps: "(ucast (4294967296 :: size_t) :: cint) = 0"
  by simp

text \<open>
  C1, as stated, at the input \<open>B = [1]\<close>: the compression succeeds and leaves the two
  bytes \<open>16, 1\<close>; decompressing them with a capacity of 4294967296, which is at least
  the length of \<open>B\<close>, fails.
\<close>

theorem round_trip_capacity_counterexample:
  "squash_lz4_compress_buffer literal_lz4
      \<lparr>out_buffer = [0, 0, 0, 0], out_length = 4, lz4_calls = []\<rparr> [1] 1
      (None :: unit SquashLZ4Options option)
     = (SQUASH_OK, \<lparr>out_buffer = [16, 1, 0, 0], out_length = 2,
                     lz4_calls = [Call_LZ4_compress_limitedOutput]\<rparr>) \<and>
   (1 :: size_t) \<le> 4294967296 \<and>
   squash_lz4_decompress_buffer literal_lz4
      \<lparr>out_buffer = replicate 4294967296 0, out_length = 4294967296, lz4_calls = []\<rparr>
      [16, 1, 0, 0] 2
     = (SQUASH_FAILED,
        \<lparr>out_buffer = replicate 4294967296 0, out_length = 4294967296,
         lz4_calls = [Call_LZ4_decompress_safe]\<rparr>)"
  by (simp add: squash_lz4_compress_buffer_def squash_lz4_decompress_buffer_def
      literal_unfold)

text \<open>
  C1, amended.  Let the library's \<open>LZ4_decompress_safe\<close> invert both of its bounded
  compressors (\<open>lz4_round_trip\<close>).  For every byte sequence \<open>B\<close>, every compress
  capacity and both option settings: when \<open>squash_lz4_compress_buffer\<close> returns
  \<open>SQUASH_OK\<close>, \<open>squash_lz4_decompress_buffer\<close> on its output with a capacity of at
  least the length of \<open>B\<close> and at most \<open>INT_MAX\<close> returns \<open>SQUASH_OK\<close>, sets the length
  slot to the length of \<open>B\<close> and has written \<open>B\<close>.
\<close>

theorem round_trip_within_int:
  assumes lib: "lz4_round_trip lib"
    and len: "length B = unat n"
    and comp: "squash_lz4_compress_buffer lib st B n options = (SQUASH_OK, st')"
    and cap: "n \<le> capacity" and capsmall: "capacity \<le> 0x7FFFFFFF"
  shows "\<exists>st''.
    squash_lz4_decompress_buffer lib
      \<lparr>out_buffer = decompressed, out_length = capacity, lz4_calls = calls\<rparr>
      (out_buffer st') (out_length st') = (SQUASH_OK, st'') \<and>
    out_length st'' = n \<and> take (unat n) (out_buffer st'') = B"
proof -
  let ?prim = "if high_compression_selected options then LZ4_compressHC_limitedOutput lib
      else LZ4_compress_limitedOutput lib"
  from cap capsmall have nsmall: "n \<le> 0x7FFFFFFF" by (rule order_trans)
  from comp obtain r where
    prim: "?prim B (out_buffer st) (ucast n) (ucast (out_length st)) = (r, out_buffer st')"
    and slot: "out_length st' = scast r" and nz: "r \<noteq> 0"
    by (rule compress_buffer_ok_result)
  from lib have inv: "inverts lib ?prim" by (simp add: lz4_round_trip_def)
  have isize: "sint (ucast n :: cint) = uint n" using nsmall by (rule sint_ucast_size)
  then have nn: "0 \<le> sint (ucast n :: cint)" by simp
  have natn: "nat (sint (ucast n :: cint)) = unat n" by (simp only: isize unat_eq_nat_uint)
  then have fits: "nat (sint (ucast n :: cint)) \<le> length B" using len by simp
  have rnn: "0 \<le> sint r" using inv nn fits prim by (rule invertsD(1))
  from nz have "sint r \<noteq> 0" by (simp add: signed_eq_0_iff)
  with rnn have rpos: "0 < sint r" by simp
  have caps: "sint (ucast n :: cint) \<le> sint (ucast capacity :: cint)"
    using cap by (simp add: isize sint_ucast_size [OF capsmall] word_le_def)
  obtain k out where
    call: "LZ4_decompress_safe lib (out_buffer st') decompressed r (ucast capacity) = (k, out)"
    by (cases "LZ4_decompress_safe lib (out_buffer st') decompressed r (ucast capacity)")
  from inv nn fits prim rpos caps call
  have "k = ucast n \<and>
        take (nat (sint (ucast n :: cint))) out = take (nat (sint (ucast n :: cint))) B"
    by (rule invertsD(2))
  then have k: "k = ucast n" and out: "take (unat n) out = B"
    using len by (simp_all add: natn)
  have "squash_lz4_decompress_buffer lib
      \<lparr>out_buffer = decompressed, out_length = capacity, lz4_calls = calls\<rparr>
      (out_buffer st') (out_length st')
    = (SQUASH_OK, \<lparr>out_buffer = out, out_length = n,
         lz4_calls = calls @ [Call_LZ4_decompress_safe]\<rparr>)"
    using call nn
    by (simp add: squash_lz4_decompress_buffer_def slot ucast_scast_int k
        scast_ucast_size [OF nsmall])
  with out show ?thesis by simp
qed

theorem round_trip_within_int_witness:
  "\<exists>st''.
     squash_lz4_decompress_buffer literal_lz4
       \<lparr>out_buffer = [0, 0, 0], out_length = 3, lz4_calls = []\<rparr>
       [48, 7, 8, 9, 0, 0, 0, 0] 4 = (SQUASH_OK, st'') \<and>
     out_length st'' = 3 \<and> take 3 (out_buffer st'') = [7, 8, 9]"
proof -
  have comp: "squash_lz4_compress_buffer literal_lz4
      \<lparr>out_buffer = [0, 0, 0, 0, 0, 0, 0, 0], out_length = 8, lz4_calls = []\<rparr>
      [7, 8, 9] 3 (Some \<lparr>base_object = (), hc = True\<rparr>)
    = (SQUASH_OK, \<lparr>out_buffer = [48, 7, 8, 9, 0, 0, 0, 0], out_length = 4,
         lz4_calls = [Call_LZ4_compressHC_limitedOutput]\<rparr>)"
    by (simp add: squash_lz4_compress_buffer_def literal_unfold)
  have len: "length [7, 8, 9 :: byte] = unat (3 :: size_t)" by simp
  have small: "(3 :: size_t) \<le> 0x7FFFFFFF" by simp
  have cap: "(3 :: size_t) \<le> 3" by simp
  from round_trip_within_int [OF literal_lz4_round_trip len comp cap small,
      of "[0, 0, 0]" "[]"]
  show ?thesis by simp
qed

end
